theory Spec2Isabelle
  imports Complex_Main "HOL-Library.Word" "HOL-Library.Signed_Division"
begin

section \<open>Go values: int, float64, strings\<close>

text \<open>
  The receipt processor is a Go program (\<open>main.go\<close>). Go's \<open>int\<close> is modelled for a
  64-bit target as a 64-bit word read in two's complement; \<open>+=\<close> and \<open>++\<close> wrap around.
  Go's \<open>/\<close> and \<open>%\<close> on \<open>int\<close> truncate towards zero.
\<close>

type_synonym go_int = "64 word"

definition go_quo :: "go_int \<Rightarrow> go_int \<Rightarrow> go_int" where
  "go_quo a b = word_of_int (sint a sdiv sint b)"

definition go_rem :: "go_int \<Rightarrow> go_int \<Rightarrow> go_int" where
  "go_rem a b = word_of_int (sint a smod sint b)"

text \<open>\<open>len\<close> of a slice or of a string (the number of bytes), as an \<open>int\<close>.\<close>

definition len :: "'a list \<Rightarrow> go_int" where
  "len xs = word_of_nat (length xs)"

subsection \<open>float64\<close>

text \<open>
  A \<open>float64\<close> is an IEEE 754 binary64 value: a finite value, given by the rational number
  it denotes, an infinity or a NaN. The sign of zero is not kept: the program observes a
  \<open>float64\<close> only through \<open>==\<close> and the conversion to \<open>int\<close>, which do not distinguish
  \<open>-0\<close> from \<open>0\<close>. Every arithmetic operation computes the exact result and rounds it to
  the nearest representable value, ties to even (\<open>round64\<close>).
\<close>

datatype float64 = Finite rat | PInf | NInf | NaN

text \<open>The number of binary digits of a positive integer.\<close>

function bitlen :: "int \<Rightarrow> int" where
  "bitlen k = (if k \<le> 0 then 0 else 1 + bitlen (k div 2))"
  by pat_completeness auto
termination
  by (relation "measure nat") auto

declare bitlen.simps [simp del]

text \<open>\<open>ilog2 q\<close> is the exponent \<open>e\<close> with \<open>2^e \<le> |q| < 2^(e+1)\<close>, for \<open>q \<noteq> 0\<close>.\<close>

definition ilog2 :: "rat \<Rightarrow> int" where
  "ilog2 q = (let (a, b) = quotient_of \<bar>q\<bar>;
                  d = bitlen a - bitlen b
              in if 2 powi d \<le> \<bar>q\<bar> then d else d - 1)"

definition round_half_even :: "rat \<Rightarrow> int" where
  "round_half_even x = (let f = \<lfloor>x\<rfloor>; d = x - of_int f in
     if d < 1 / 2 then f else if 1 / 2 < d then f + 1 else if even f then f else f + 1)"

text \<open>
  Rounding to binary64: 53 significant bits, the unit in the last place is
  \<open>2^(e - 52)\<close> with the exponent \<open>e\<close> at least \<open>-1022\<close> (subnormal numbers below), and a
  rounded magnitude of \<open>2^1024\<close> or more overflows to an infinity.
\<close>

definition round64 :: "rat \<Rightarrow> float64" where
  "round64 q = (if q = 0 then Finite 0 else
     let e = max (ilog2 q) (- 1022); u = 2 powi (e - 52);
         r = of_int (round_half_even (q / u)) * u
     in if 2 ^ 1024 \<le> \<bar>r\<bar> then (if 0 < q then PInf else NInf) else Finite r)"

text \<open>The values a \<open>float64\<close> variable can hold: rounding leaves them as they are.\<close>

definition is_float64 :: "float64 \<Rightarrow> bool" where
  "is_float64 x = (case x of Finite q \<Rightarrow> round64 q = Finite q | _ \<Rightarrow> True)"

fun f64_sign :: "float64 \<Rightarrow> int" where
  "f64_sign (Finite q) = (if 0 < q then 1 else if q < 0 then - 1 else 0)"
| "f64_sign PInf = 1"
| "f64_sign NInf = - 1"
| "f64_sign NaN = 0"

fun f64_mul :: "float64 \<Rightarrow> float64 \<Rightarrow> float64" where
  "f64_mul (Finite a) (Finite b) = round64 (a * b)"
| "f64_mul NaN y = NaN"
| "f64_mul x NaN = NaN"
| "f64_mul x y = (let s = f64_sign x * f64_sign y in
     if s = 0 then NaN else if 0 < s then PInf else NInf)"

fun f64_add :: "float64 \<Rightarrow> float64 \<Rightarrow> float64" where
  "f64_add (Finite a) (Finite b) = round64 (a + b)"
| "f64_add NaN y = NaN"
| "f64_add x NaN = NaN"
| "f64_add PInf NInf = NaN"
| "f64_add NInf PInf = NaN"
| "f64_add PInf y = PInf"
| "f64_add NInf y = NInf"
| "f64_add x PInf = PInf"
| "f64_add x NInf = NInf"

text \<open>The fused multiply-add \<open>x * y + z\<close>: one rounding, of the exact result.\<close>

fun f64_fma :: "float64 \<Rightarrow> float64 \<Rightarrow> float64 \<Rightarrow> float64" where
  "f64_fma (Finite a) (Finite b) (Finite c) = round64 (a * b + c)"
| "f64_fma x y z = f64_add (f64_mul x y) z"

text \<open>\<open>x == y\<close> on \<open>float64\<close>: a NaN equals nothing.\<close>

fun f64_eq :: "float64 \<Rightarrow> float64 \<Rightarrow> bool" where
  "f64_eq (Finite a) (Finite b) = (a = b)"
| "f64_eq PInf PInf = True"
| "f64_eq NInf NInf = True"
| "f64_eq x y = False"

text \<open>\<open>float64(n)\<close> for an \<open>int\<close> \<open>n\<close>: the nearest \<open>float64\<close>.\<close>

definition float64_of_int :: "go_int \<Rightarrow> float64" where
  "float64_of_int n = round64 (of_int (sint n))"

text \<open>
  The language leaves two things to the implementation, and the two usual 64-bit targets
  differ in both:
  \<^item> \<open>int(x)\<close> for a \<open>float64\<close> \<open>x\<close> discards the fraction (truncation towards zero); when
    the result does not fit the \<open>int\<close>, the conversion succeeds and its value is
    implementation-dependent (\<open>conv_unrepresentable\<close>);
  \<^item> an implementation may fuse \<open>x * y + z\<close> into one operation, rounding once
    (\<open>fma_fused\<close>).
\<close>

record platform =
  fma_fused :: bool
  conv_unrepresentable :: "float64 \<Rightarrow> go_int"

definition trunc :: "rat \<Rightarrow> int" where
  "trunc q = (if 0 \<le> q then \<lfloor>q\<rfloor> else \<lceil>q\<rceil>)"

definition int_of_float64 :: "platform \<Rightarrow> float64 \<Rightarrow> go_int" where
  "int_of_float64 pf x = (case x of
     Finite q \<Rightarrow> (let t = trunc q in
       if - (2 ^ 63) \<le> t \<and> t < 2 ^ 63 then word_of_int t else conv_unrepresentable pf x)
   | _ \<Rightarrow> conv_unrepresentable pf x)"

definition mul_add :: "platform \<Rightarrow> float64 \<Rightarrow> float64 \<Rightarrow> float64 \<Rightarrow> float64" where
  "mul_add pf x y z = (if fma_fused pf then f64_fma x y z else f64_add (f64_mul x y) z)"

text \<open>
  amd64: no fusing; the conversion instruction answers every unrepresentable value with
  the "integer indefinite" \<open>0x8000000000000000\<close>.
  arm64: fusing; the conversion instruction saturates, and turns a NaN into 0.
\<close>

definition amd64 :: platform where
  "amd64 = \<lparr>fma_fused = False, conv_unrepresentable = (\<lambda>x. 0x8000000000000000)\<rparr>"

definition arm64 :: platform where
  "arm64 = \<lparr>fma_fused = True,
     conv_unrepresentable = (\<lambda>x. if x = NaN then 0
        else if 0 < f64_sign x then 0x7FFFFFFFFFFFFFFF else 0x8000000000000000)\<rparr>"

subsection \<open>Strings and runes\<close>

text \<open>
  A Go string is a sequence of bytes (\<open>string\<close>, a list of 8-bit characters); \<open>len\<close> counts
  bytes. \<open>range\<close> over a string, and the scanner of package \<open>fmt\<close>, read it rune by rune,
  decoding UTF-8 as \<open>utf8.DecodeRuneInString\<close> does: an invalid or incomplete encoding
  yields \<open>RuneError\<close> with width 1.
\<close>

definition RuneError :: nat where
  "RuneError = 0xFFFD"

definition cont_byte :: "nat \<Rightarrow> bool" where
  "cont_byte b = (0x80 \<le> b \<and> b \<le> 0xBF)"

definition DecodeRuneInString :: "string \<Rightarrow> nat \<times> nat" where
  "DecodeRuneInString s = (case map of_char s of
     [] \<Rightarrow> (RuneError, 0)
   | b0 # t \<Rightarrow>
      if b0 < 0x80 then (b0, 1)
      else if b0 < 0xC2 then (RuneError, 1)
      else if b0 < 0xE0 then
        (case t of
           b1 # _ \<Rightarrow> if cont_byte b1 then ((b0 mod 32) * 64 + b1 mod 64, 2)
                     else (RuneError, 1)
         | _ \<Rightarrow> (RuneError, 1))
      else if b0 < 0xF0 then
        (case t of
           b1 # b2 # _ \<Rightarrow>
             if (if b0 = 0xE0 then 0xA0 else 0x80) \<le> b1
                \<and> b1 \<le> (if b0 = 0xED then 0x9F else 0xBF) \<and> cont_byte b2
             then ((b0 mod 16) * 4096 + (b1 mod 64) * 64 + b2 mod 64, 3)
             else (RuneError, 1)
         | _ \<Rightarrow> (RuneError, 1))
      else if b0 < 0xF5 then
        (case t of
           b1 # b2 # b3 # _ \<Rightarrow>
             if (if b0 = 0xF0 then 0x90 else 0x80) \<le> b1
                \<and> b1 \<le> (if b0 = 0xF4 then 0x8F else 0xBF) \<and> cont_byte b2 \<and> cont_byte b3
             then ((b0 mod 8) * 262144 + (b1 mod 64) * 4096 + (b2 mod 64) * 64 + b3 mod 64, 4)
             else (RuneError, 1)
         | _ \<Rightarrow> (RuneError, 1))
      else (RuneError, 1))"

text \<open>The runes \<open>for _, c := range s\<close> goes through.\<close>

function runes :: "string \<Rightarrow> nat list" where
  "runes [] = []"
| "runes (c # cs) =
     fst (DecodeRuneInString (c # cs)) # runes (drop (snd (DecodeRuneInString (c # cs))) (c # cs))"
  by pat_completeness auto
termination
proof (relation "measure length")
  show "wf (measure length)" by simp
next
  fix c :: char and cs :: string
  have "1 \<le> snd (DecodeRuneInString (c # cs))"
    by (auto simp: DecodeRuneInString_def split: list.splits)
  then show "(drop (snd (DecodeRuneInString (c # cs))) (c # cs), c # cs) \<in> measure length"
    by simp
qed

subsection \<open>The scanner: fmt.Sscanf with %d verbs\<close>

text \<open>
  \<open>fmt.Sscanf(str, format, &a, &b, ...)\<close> for a format made of \<open>%d\<close> verbs and literal
  characters that are neither spaces nor \<open>%\<close>, as in \<open>"%d-%d-%d"\<close> and \<open>"%d:%d"\<close>.
  It stores each scanned integer through its pointer as soon as it is scanned and stops at
  the first error; the caller here discards the error and the count, so the model returns
  the values stored, in order.
\<close>

definition isSpace :: "nat \<Rightarrow> bool" where
  "isSpace r = ((0x0009 \<le> r \<and> r \<le> 0x000D) \<or> r = 0x0020 \<or> r = 0x0085 \<or> r = 0x00A0
     \<or> r = 0x1680 \<or> (0x2000 \<le> r \<and> r \<le> 0x200A) \<or> r = 0x2028 \<or> r = 0x2029
     \<or> r = 0x202F \<or> r = 0x205F \<or> r = 0x3000)"

text \<open>
  \<open>SkipSpace\<close>: spaces are skipped; a newline is an error in \<open>Sscanf\<close> (\<open>None\<close>), also
  after a carriage return.
\<close>

function SkipSpace :: "string \<Rightarrow> string option" where
  "SkipSpace [] = Some []"
| "SkipSpace (c # cs) =
     (if fst (DecodeRuneInString (c # cs)) = 0x0A then None
      else if isSpace (fst (DecodeRuneInString (c # cs)))
      then SkipSpace (drop (snd (DecodeRuneInString (c # cs))) (c # cs))
      else Some (c # cs))"
  by pat_completeness auto
termination
proof (relation "measure length")
  show "wf (measure length)" by simp
next
  fix c :: char and cs :: string
  have "1 \<le> snd (DecodeRuneInString (c # cs))"
    by (auto simp: DecodeRuneInString_def split: list.splits)
  then show "(drop (snd (DecodeRuneInString (c # cs))) (c # cs), c # cs) \<in> measure length"
    by simp
qed

definition is_sign :: "char \<Rightarrow> bool" where
  "is_sign c = (c = CHR ''+'' \<or> c = CHR ''-'')"

definition is_digit :: "char \<Rightarrow> bool" where
  "is_digit c = (0x30 \<le> (of_char c :: nat) \<and> (of_char c :: nat) \<le> 0x39)"

text \<open>The decimal value of a string of digits.\<close>

definition decimal :: "string \<Rightarrow> int" where
  "decimal ds = foldl (\<lambda>v c. 10 * v + (int (of_char c) - 0x30)) 0 ds"

text \<open>
  A token the scanner reads as a number that fits an \<open>int\<close>: decimal digits, at least one.
\<close>

definition is_number :: "string \<Rightarrow> bool" where
  "is_number ds = (ds \<noteq> [] \<and> list_all is_digit ds \<and> decimal ds < 2 ^ 63)"

text \<open>
  \<open>scanInt\<close> for the verb \<open>%d\<close> and an \<open>int\<close> operand: skip spaces, fail at the end of
  the input, accept one sign, then at least one decimal digit and all that follow, and
  convert the token with \<open>strconv.ParseInt(tok, 10, 64)\<close>, which fails when the value does
  not fit 64 bits. The result is the value and the rest of the input.
\<close>

definition scanInt :: "string \<Rightarrow> (go_int \<times> string) option" where
  "scanInt s = (case SkipSpace s of
     None \<Rightarrow> None
   | Some [] \<Rightarrow> None
   | Some (c # cs) \<Rightarrow>
      (let neg = (c = CHR ''-'');
           s2 = (if is_sign c then cs else c # cs);
           tok = takeWhile is_digit s2;
           v = (if neg then - decimal tok else decimal tok)
       in if tok = [] then None
          else if - (2 ^ 63) \<le> v \<and> v < 2 ^ 63
          then Some (word_of_int v, dropWhile is_digit s2)
          else None))"

datatype fmt_item = Verb_d | Lit char

fun doScanf :: "fmt_item list \<Rightarrow> string \<Rightarrow> go_int list" where
  "doScanf [] s = []"
| "doScanf (Lit l # fs) s =
     (case s of [] \<Rightarrow> [] | c # cs \<Rightarrow> if c = l then doScanf fs cs else [])"
| "doScanf (Verb_d # fs) s =
     (case scanInt s of None \<Rightarrow> [] | Some (v, rest) \<Rightarrow> v # doScanf fs rest)"

text \<open>
  The operands are declared \<open>var year, month, day int\<close>, so each is 0 until the scanner
  stores into it: the \<open>k\<close>-th operand after the call.
\<close>

definition operand :: "go_int list \<Rightarrow> nat \<Rightarrow> go_int" where
  "operand stored k = (if k < length stored then stored ! k else 0)"

subsection \<open>strings.TrimPrefix and strings.Split\<close>

definition TrimPrefix :: "string \<Rightarrow> string \<Rightarrow> string" where
  "TrimPrefix s p = (if take (length p) s = p then drop (length p) s else s)"

text \<open>\<open>strings.Split(s, sep)\<close> for a separator of one byte, as \<open>"/"\<close> is.\<close>

fun Split :: "string \<Rightarrow> char \<Rightarrow> string list" where
  "Split [] sep = [[]]"
| "Split (c # cs) sep =
     (if c = sep then [] # Split cs sep
      else (case Split cs sep of p # ps \<Rightarrow> (c # p) # ps | [] \<Rightarrow> [[c]]))"

section \<open>The data model\<close>

record Item =
  Description :: string
  Price :: float64

record Receipt =
  Retailer :: string
  Total :: float64
  PurchaseDate :: string
  PurchaseTime :: string
  Items :: "Item list"

text \<open>\<open>var receipt Receipt\<close>: the zero value, which the decoder leaves as it is for \<open>{}\<close>.\<close>

definition zero_Receipt :: Receipt where
  "zero_Receipt =
     \<lparr>Retailer = [], Total = Finite 0, PurchaseDate = [], PurchaseTime = [], Items = []\<rparr>"

section \<open>calculatePoints\<close>

text \<open>
  \<open>calculatePoints\<close> starts from \<open>points := 0\<close> and runs seven blocks, each of which
  updates \<open>points\<close>. Each block is a function from the value of \<open>points\<close> before it to
  the value after it.
\<close>

text \<open>1. One point for every alphanumeric character in the retailer name.\<close>

definition alphanumeric :: "nat \<Rightarrow> bool" where
  "alphanumeric c = ((0x61 \<le> c \<and> c \<le> 0x7A) \<or> (0x41 \<le> c \<and> c \<le> 0x5A) \<or> (0x30 \<le> c \<and> c \<le> 0x39))"

definition retailer_points :: "Receipt \<Rightarrow> go_int \<Rightarrow> go_int" where
  "retailer_points receipt points =
     foldl (\<lambda>points c. if alphanumeric c then points + 1 else points)
       points (runes (Retailer receipt))"

text \<open>2. \<open>if receipt.Total == float64(int(receipt.Total)) { points += 50 }\<close>\<close>

definition round_dollar_points :: "platform \<Rightarrow> Receipt \<Rightarrow> go_int \<Rightarrow> go_int" where
  "round_dollar_points pf receipt points =
     (if f64_eq (Total receipt) (float64_of_int (int_of_float64 pf (Total receipt)))
      then points + 50 else points)"

text \<open>3. \<open>if int(receipt.Total*4)%4 == 0 { points += 25 }\<close>\<close>

definition quarter_points :: "platform \<Rightarrow> Receipt \<Rightarrow> go_int \<Rightarrow> go_int" where
  "quarter_points pf receipt points =
     (if go_rem (int_of_float64 pf (f64_mul (Total receipt) (Finite 4))) 4 = 0
      then points + 25 else points)"

text \<open>4. \<open>points += (len(receipt.Items) / 2) * 5\<close>\<close>

definition item_pair_points :: "Receipt \<Rightarrow> go_int \<Rightarrow> go_int" where
  "item_pair_points receipt points = points + go_quo (len (Items receipt)) 2 * 5"

text \<open>
  5. \<open>for _, item := range receipt.Items { if len(item.Description)%3 == 0
  { points += int(item.Price*0.2 + 0.5) } }\<close>.
  The constants \<open>0.2\<close> and \<open>0.5\<close> are converted to \<open>float64\<close>.
\<close>

definition item_points :: "platform \<Rightarrow> Item \<Rightarrow> go_int" where
  "item_points pf item =
     int_of_float64 pf (mul_add pf (Price item) (round64 (1 / 5)) (round64 (1 / 2)))"

definition description_points :: "platform \<Rightarrow> Receipt \<Rightarrow> go_int \<Rightarrow> go_int" where
  "description_points pf receipt points =
     foldl (\<lambda>points item.
              if go_rem (len (Description item)) 3 = 0 then points + item_points pf item
              else points)
       points (Items receipt)"

text \<open>
  6. \<open>var year, month, day int; fmt.Sscanf(receipt.PurchaseDate, "%d-%d-%d", &year, &month, &day);
  if day%2 != 0 { points += 6 }\<close>
\<close>

definition date_format :: "fmt_item list" where
  "date_format = [Verb_d, Lit CHR ''-'', Verb_d, Lit CHR ''-'', Verb_d]"

definition parsed_day :: "Receipt \<Rightarrow> go_int" where
  "parsed_day receipt = operand (doScanf date_format (PurchaseDate receipt)) 2"

definition odd_day_points :: "Receipt \<Rightarrow> go_int \<Rightarrow> go_int" where
  "odd_day_points receipt points =
     (let day = parsed_day receipt in
      if go_rem day 2 \<noteq> 0 then points + 6 else points)"

text \<open>
  7. \<open>var hour, minute int; fmt.Sscanf(receipt.PurchaseTime, "%d:%d", &hour, &minute);
  if hour >= 14 && hour < 16 { points += 10 }\<close>
\<close>

definition time_format :: "fmt_item list" where
  "time_format = [Verb_d, Lit CHR '':'', Verb_d]"

definition parsed_hour :: "Receipt \<Rightarrow> go_int" where
  "parsed_hour receipt = operand (doScanf time_format (PurchaseTime receipt)) 0"

definition afternoon_points :: "Receipt \<Rightarrow> go_int \<Rightarrow> go_int" where
  "afternoon_points receipt points =
     (let hour = parsed_hour receipt in
      if 14 \<le> sint hour \<and> sint hour < 16 then points + 10 else points)"

definition calculatePoints :: "platform \<Rightarrow> Receipt \<Rightarrow> go_int" where
  "calculatePoints pf receipt =
     (let points = 0;
          points = retailer_points receipt points;
          points = round_dollar_points pf receipt points;
          points = quarter_points pf receipt points;
          points = item_pair_points receipt points;
          points = description_points pf receipt points;
          points = odd_day_points receipt points;
          points = afternoon_points receipt points
      in points)"

subsection \<open>Notions the specification uses\<close>


text \<open>
  "The total is a multiple of 0.25", as the comment on block 3 and the specification
  word rule 3: four times the total is a whole number.
\<close>

definition multiple_of_quarter :: "float64 \<Rightarrow> bool" where
  "multiple_of_quarter x = (case x of Finite q \<Rightarrow> of_int \<lfloor>q * 4\<rfloor> = q * 4 | _ \<Rightarrow> False)"

section \<open>The store and the two handlers\<close>

text \<open>
  \<open>var receipts = make(map[string]int)\<close>: the handlers read and update it, so they take
  the map and return it. Three things come from outside the program and are parameters:
  the JSON decoder (\<open>None\<close> when \<open>Decode\<close> returns an error), the identifier
  \<open>uuid.New().String()\<close> returns, and the platform.
\<close>

type_synonym Store = "string \<rightharpoonup> go_int"

record Request =
  Method :: string
  Path :: string
  Body :: string

text \<open>
  What a handler writes: the status and either the message given to \<open>http.Error\<close> or the
  value given to the JSON encoder (\<open>ProcessResponse\<close>, \<open>PointsResponse\<close>).
\<close>

datatype payload = Message string | ProcessResponse string | PointsResponse go_int

record Response =
  Status :: nat
  Payload :: payload

definition http_Error :: "string \<Rightarrow> nat \<Rightarrow> Response" where
  "http_Error msg code = \<lparr>Status = code, Payload = Message msg\<rparr>"

definition processReceiptHandler ::
  "platform \<Rightarrow> (string \<Rightarrow> Receipt option) \<Rightarrow> string \<Rightarrow> Request \<Rightarrow> Store \<Rightarrow> Response \<times> Store" where
  "processReceiptHandler pf decode uuid r receipts =
     (if Method r \<noteq> ''POST'' then (http_Error ''Invalid method'' 405, receipts)
      else case decode (Body r) of
        None \<Rightarrow> (http_Error ''Invalid input'' 400, receipts)
      | Some receipt \<Rightarrow>
          (let id = uuid;
               points = calculatePoints pf receipt;
               receipts = receipts(id \<mapsto> points)
           in (\<lparr>Status = 200, Payload = ProcessResponse id\<rparr>, receipts)))"

definition getPointsHandler :: "Request \<Rightarrow> Store \<Rightarrow> Response" where
  "getPointsHandler r receipts =
     (if Method r \<noteq> ''GET'' then http_Error ''Invalid method'' 405
      else let pathParts = Split (TrimPrefix (Path r) ''/receipts/'') CHR ''/'' in
        if length pathParts \<noteq> 2 \<or> pathParts ! 1 \<noteq> ''points''
        then http_Error ''Invalid endpoint'' 404
        else let id = pathParts ! 0 in
          case receipts id of
            None \<Rightarrow> http_Error ''Receipt not found'' 404
          | Some points \<Rightarrow> \<lparr>Status = 200, Payload = PointsResponse points\<rparr>)"

text \<open>
  The map starts empty (\<open>make(map[string]int)\<close>) and only \<open>processReceiptHandler\<close>
  writes to it: \<open>receipts\<close> after a sequence of calls of it, each with the identifier
  generated for it.
\<close>

fun receipts_after ::
  "platform \<Rightarrow> (string \<Rightarrow> Receipt option) \<Rightarrow> (string \<times> Request) list \<Rightarrow> Store \<Rightarrow> Store" where
  "receipts_after pf decode [] receipts = receipts"
| "receipts_after pf decode ((uuid, r) # calls) receipts =
     receipts_after pf decode calls (snd (processReceiptHandler pf decode uuid r receipts))"

section \<open>Facts about the integer operations\<close>

lemma sint_word_of_int_64:
  "- (2 ^ 63) \<le> k \<Longrightarrow> k < 2 ^ 63 \<Longrightarrow> sint (word_of_int k :: go_int) = k"
  by (simp add: sint_sbintrunc' signed_take_bit_int_eq_self)

lemma sint_len: 
  assumes "length xs < 2 ^ 63"
  shows "sint (len xs) = int (length xs)"
proof -
  have "int (length xs) < int (2 ^ 63)"
    using assms by (simp only: of_nat_less_iff)
  then have "int (length xs) < 2 ^ 63" by simp
  then have "sint (word_of_int (int (length xs)) :: go_int) = int (length xs)"
    by (intro sint_word_of_int_64) simp_all
  then show ?thesis by (simp add: len_def)
qed

lemma smod_eq_0_iff_dvd:
  fixes k n :: int
  assumes "0 < n"
  shows "k smod n = 0 \<longleftrightarrow> n dvd k"
proof -
  have "k smod n = 0 \<longleftrightarrow> \<bar>k\<bar> mod n = 0"
    using assms by (cases "k = 0") (simp_all add: signed_modulo_int_def sgn_if)
  also have "\<dots> \<longleftrightarrow> n dvd \<bar>k\<bar>"
    by (simp add: dvd_eq_mod_eq_0)
  also have "\<dots> \<longleftrightarrow> n dvd k" by simp
  finally show ?thesis .
qed

lemma go_rem_dvd:
  assumes "0 < n" "n < 2 ^ 63"
  shows "go_rem a (word_of_int n) = 0 \<longleftrightarrow> n dvd sint a"
proof -
  have sn: "sint (word_of_int n :: go_int) = n"
    using assms by (intro sint_word_of_int_64) simp_all
  have r: "- n < sint a smod n" "sint a smod n < n"
    using smod_int_range [of n "sint a"] assms by auto
  have "sint (word_of_int (sint a smod n) :: go_int) = sint a smod n"
    using r assms by (intro sint_word_of_int_64) simp_all
  then have "(word_of_int (sint a smod n) :: go_int) = 0 \<longleftrightarrow> sint a smod n = 0"
    by (metis sint_0 word_of_int_0)
  then show ?thesis
    using assms by (simp add: go_rem_def sn smod_eq_0_iff_dvd)
qed

lemma go_rem_2: "go_rem a 2 = 0 \<longleftrightarrow> even (sint a)"
  using go_rem_dvd [of 2 a] by simp


lemma go_rem_4: "go_rem a 4 = 0 \<longleftrightarrow> 4 dvd sint a"
  using go_rem_dvd [of 4 a] by simp

lemma go_quo_len_2:
  assumes "length xs < 2 ^ 63"
  shows "go_quo (len xs) 2 = word_of_nat (length xs div 2)"
proof -
  have "sint (len xs) sdiv 2 = int (length xs) div 2"
    by (simp add: sint_len [OF assms] signed_divide_int_def sgn_if)
  also have "\<dots> = int (length xs div 2)" by simp
  finally show ?thesis
    by (simp add: go_quo_def)
qed

section \<open>The blocks add to \<open>points\<close>\<close>

text \<open>
  Every block leaves \<open>points\<close> as it is or adds to it, so its effect on any value of
  \<open>points\<close> is its effect on 0, added.
\<close>

lemma description_points_sum:
  "description_points pf r p =
     p + sum_list (map (\<lambda>item. if go_rem (len (Description item)) 3 = 0 then item_points pf item else 0)
                     (Items r))"
proof -
  have "foldl (\<lambda>points item.
              if go_rem (len (Description item)) 3 = 0 then points + item_points pf item
              else points) p xs
      = p + sum_list (map (\<lambda>item. if go_rem (len (Description item)) 3 = 0
                                    then item_points pf item else 0) xs)"
    for xs
  proof (induction xs arbitrary: p)
    case Nil
    show ?case by simp
  next
    case (Cons x xs)
    show ?case by (simp add: Cons.IH add.assoc)
  qed
  then show ?thesis by (simp add: description_points_def)
qed

section \<open>The zero-value receipt\<close>

lemma round64_0: "round64 0 = Finite 0"
  by (simp add: round64_def)

lemma int_of_float64_0: "int_of_float64 pf (Finite 0) = 0"
  by (simp add: int_of_float64_def trunc_def)

lemma go_rem_0: "go_rem 0 b = 0"
  by (simp add: go_rem_def)

lemma scanInt_Nil: "scanInt [] = None"
  by (simp add: scanInt_def)

lemma calculatePoints_zero: "calculatePoints pf zero_Receipt = 75"
  by (simp add: calculatePoints_def zero_Receipt_def retailer_points_def round_dollar_points_def
      quarter_points_def item_pair_points_def description_points_def odd_day_points_def
      afternoon_points_def parsed_day_def parsed_hour_def date_format_def time_format_def
      operand_def scanInt_Nil go_rem_0 int_of_float64_0 float64_of_int_def round64_0
      len_def go_quo_def)

text \<open>
  C10. \<open>calculatePoints\<close> of the zero-value receipt (empty retailer, total 0, empty date
  and time, no items) is 75 on every platform: 50 for the round total, 25 for the quarter
  test, nothing else. So a POST whose body decodes to the zero value (as \<open>{}\<close> does) is
  accepted with status 200 and stored with 75 points.
\<close>

theorem zero_value_receipt_scores_75:
  "calculatePoints pf zero_Receipt = 75 \<and>
   (Method r = ''POST'' \<and> decode (Body r) = Some zero_Receipt \<longrightarrow>
      processReceiptHandler pf decode uuid r receipts =
        (\<lparr>Status = 200, Payload = ProcessResponse uuid\<rparr>, receipts(uuid \<mapsto> 75)))"
  by (simp add: calculatePoints_zero processReceiptHandler_def)

theorem zero_value_receipt_scores_75_witness:
  "calculatePoints amd64 zero_Receipt = 75 \<and>
   processReceiptHandler amd64 (\<lambda>b. if b = ''{}'' then Some zero_Receipt else None)
       ''7fb1377b-b223-49d9-a31a-5a02701dd310''
       \<lparr>Method = ''POST'', Path = ''/receipts/process'', Body = ''{}''\<rparr> Map.empty =
     (\<lparr>Status = 200, Payload = ProcessResponse ''7fb1377b-b223-49d9-a31a-5a02701dd310''\<rparr>,
      [''7fb1377b-b223-49d9-a31a-5a02701dd310'' \<mapsto> 75])"
  using zero_value_receipt_scores_75 [of amd64
      "\<lparr>Method = ''POST'', Path = ''/receipts/process'', Body = ''{}''\<rparr>"
      "\<lambda>b. if b = ''{}'' then Some zero_Receipt else None"
      "''7fb1377b-b223-49d9-a31a-5a02701dd310''" Map.empty]
  by simp

section \<open>Rule 4: pairs of items\<close>

text \<open>
  C9. For a receipt with \<open>n\<close> items (a slice, so \<open>n < 2^63\<close>), block 4 adds
  \<open>(n div 2) * 5\<close>: nothing for 0 or 1 items, 5 for 2 or 3, 10 for 4 or 5.
\<close>

theorem item_pair_points_eq:
  "(length (Items r) < 2 ^ 63 \<longrightarrow>
      item_pair_points r p = p + word_of_nat (length (Items r) div 2) * 5)
   \<and> item_pair_points (r\<lparr>Items := []\<rparr>) p = p
   \<and> item_pair_points (r\<lparr>Items := [a]\<rparr>) p = p
   \<and> item_pair_points (r\<lparr>Items := [a, b]\<rparr>) p = p + 5
   \<and> item_pair_points (r\<lparr>Items := [a, b, c]\<rparr>) p = p + 5
   \<and> item_pair_points (r\<lparr>Items := [a, b, c, d]\<rparr>) p = p + 10
   \<and> item_pair_points (r\<lparr>Items := [a, b, c, d, e]\<rparr>) p = p + 10"
  by (simp add: item_pair_points_def go_quo_len_2)

theorem item_pair_points_eq_witness:
  "length (Items (zero_Receipt\<lparr>Items := replicate 7 \<lparr>Description = ''abc'', Price = Finite 3\<rparr>\<rparr>)) < 2 ^ 63
   \<and> item_pair_points (zero_Receipt\<lparr>Items := replicate 7 \<lparr>Description = ''abc'', Price = Finite 3\<rparr>\<rparr>) 0 = 15"
  using item_pair_points_eq [of
      "zero_Receipt\<lparr>Items := replicate 7 \<lparr>Description = ''abc'', Price = Finite 3\<rparr>\<rparr>" 0]
  by simp

section \<open>Rules 6 and 7: what the scanner stores\<close>

lemma DecodeRuneInString_ascii:
  "(of_char c :: nat) < 0x80 \<Longrightarrow> DecodeRuneInString (c # cs) = (of_char c, 1)"
  by (simp add: DecodeRuneInString_def)

lemma SkipSpace_digit: "is_digit c \<Longrightarrow> SkipSpace (c # cs) = Some (c # cs)"
  by (simp add: DecodeRuneInString_ascii is_digit_def isSpace_def)

lemma is_digit_not_sign: "is_digit c \<Longrightarrow> \<not> is_sign c \<and> c \<noteq> CHR ''-''"
  by (auto simp: is_digit_def is_sign_def)

lemma foldl_decimal_nonneg:
  "list_all is_digit ds \<Longrightarrow> 0 \<le> v \<Longrightarrow>
     0 \<le> foldl (\<lambda>v c. 10 * v + (int (of_char c) - 0x30)) v ds"
proof (induction ds arbitrary: v)
  case Nil
  then show ?case by simp
next
  case (Cons c ds)
  from Cons.prems have "0 \<le> 10 * v + (int (of_char c) - 0x30)"
    by (simp add: is_digit_def)
  with Cons show ?case by simp
qed

lemma decimal_nonneg: "list_all is_digit ds \<Longrightarrow> 0 \<le> decimal ds"
  by (simp add: decimal_def foldl_decimal_nonneg)

lemma scanInt_number:
  assumes "is_number ds" and "list_all is_digit (take 1 rest) \<longrightarrow> rest = []"
  shows "scanInt (ds @ rest) = Some (word_of_int (decimal ds), rest)"
proof -
  from assms(1) obtain c cs where ds: "ds = c # cs"
    by (cases ds) (auto simp: is_number_def)
  from assms(1) have dig: "list_all is_digit ds" and c: "is_digit c"
    by (simp_all add: is_number_def ds)
  have rest: "takeWhile is_digit rest = []" "dropWhile is_digit rest = rest"
    using assms(2) by (cases rest; simp)+
  have tw: "takeWhile is_digit (c # cs @ rest) = c # cs"
    using dig rest by (simp add: list_all_iff ds)
  have dw: "dropWhile is_digit (c # cs @ rest) = rest"
    using dig rest by (simp add: list_all_iff ds)
  have range: "- (2 ^ 63) \<le> decimal (c # cs)" "decimal (c # cs) < 2 ^ 63"
    using assms(1) decimal_nonneg [OF dig] by (simp_all add: is_number_def ds)
  have sk: "SkipSpace (c # cs @ rest) = Some (c # cs @ rest)"
    by (rule SkipSpace_digit [OF c])
  show ?thesis
    using is_digit_not_sign [OF c] range
    by (simp add: scanInt_def ds Let_def sk tw dw
        del: takeWhile.simps dropWhile.simps SkipSpace.simps)
qed

lemma not_digit_start:
  "\<not> is_digit c \<Longrightarrow> list_all is_digit (take 1 (c # cs)) \<longrightarrow> c # cs = []"
  by simp

lemma doScanf_date:
  assumes "is_number y" "is_number m" "is_number d"
    and "list_all is_digit (take 1 rest) \<longrightarrow> rest = []"
  shows "doScanf date_format (y @ CHR ''-'' # m @ CHR ''-'' # d @ rest) =
     [word_of_int (decimal y), word_of_int (decimal m), word_of_int (decimal d)]"
proof -
  have nd: "\<not> is_digit CHR ''-''" by (simp add: is_digit_def)
  have 1: "scanInt (y @ CHR ''-'' # m @ CHR ''-'' # d @ rest)
      = Some (word_of_int (decimal y), CHR ''-'' # m @ CHR ''-'' # d @ rest)"
    by (rule scanInt_number [OF assms(1) not_digit_start [OF nd]])
  have 2: "scanInt (m @ CHR ''-'' # d @ rest) = Some (word_of_int (decimal m), CHR ''-'' # d @ rest)"
    by (rule scanInt_number [OF assms(2) not_digit_start [OF nd]])
  have 3: "scanInt (d @ rest) = Some (word_of_int (decimal d), rest)"
    by (rule scanInt_number [OF assms(3) assms(4)])
  show ?thesis
    by (simp add: date_format_def 1 2 3)
qed

lemma doScanf_time_hour:
  assumes "is_number h" and "list_all is_digit (take 1 rest) \<longrightarrow> rest = []"
  shows "operand (doScanf time_format (h @ rest)) 0 = word_of_int (decimal h)"
  by (simp add: time_format_def scanInt_number [OF assms] operand_def)

lemma sint_number: "is_number ds \<Longrightarrow> sint (word_of_int (decimal ds) :: go_int) = decimal ds"
  by (intro sint_word_of_int_64) (simp_all add: is_number_def decimal_nonneg order_trans [of _ 0])

text \<open>
  C7. Block 6 adds 6 exactly when the day the scanner stored is odd; when the scanner
  stored fewer than three numbers (the day is missing or cannot be parsed) the day is 0 and
  nothing is added; and for a date \<open>Y-M-D\<close> of three numbers the day is the third
  one, read by position.
\<close>

theorem odd_day_points_iff:
  "odd_day_points r p = (if odd (sint (parsed_day r)) then p + 6 else p)
   \<and> (length (doScanf date_format (PurchaseDate r)) < 3 \<longrightarrow>
        parsed_day r = 0 \<and> odd_day_points r p = p)
   \<and> (is_number y \<and> is_number m \<and> is_number d
        \<and> PurchaseDate r = y @ CHR ''-'' # m @ CHR ''-'' # d \<longrightarrow>
        sint (parsed_day r) = decimal d
        \<and> odd_day_points r p = (if odd (decimal d) then p + 6 else p))"
proof (intro conjI impI)
  show g: "odd_day_points r p = (if odd (sint (parsed_day r)) then p + 6 else p)"
    by (simp add: odd_day_points_def go_rem_2)
  {
    assume "length (doScanf date_format (PurchaseDate r)) < 3"
    then show "parsed_day r = 0" by (simp add: parsed_day_def operand_def)
    then show "odd_day_points r p = p" by (simp add: g)
  }
  {
    assume a: "is_number y \<and> is_number m \<and> is_number d
        \<and> PurchaseDate r = y @ CHR ''-'' # m @ CHR ''-'' # d"
    then have "doScanf date_format (PurchaseDate r) =
        [word_of_int (decimal y), word_of_int (decimal m), word_of_int (decimal d)]"
      using doScanf_date [of y m d "[]"] by simp
    then have "parsed_day r = word_of_int (decimal d)"
      by (simp add: parsed_day_def operand_def)
    then show s: "sint (parsed_day r) = decimal d"
      using a by (simp add: sint_number)
    show "odd_day_points r p = (if odd (decimal d) then p + 6 else p)"
      by (simp add: g s)
  }
qed

lemma scan_examples:
  "doScanf date_format ''2022-01'' = [2022, 1]"
  "doScanf date_format ''2022-01-xx'' = [2022, 1]"
  "doScanf date_format [] = []"
  "doScanf date_format ''01/02/2022'' = [1]"
  "doScanf time_format ''14:33'' = [14, 33]"
  "doScanf time_format ''16:00'' = [16, 0]"
  "doScanf time_format ''13:59'' = [13, 59]"
  "doScanf time_format ''2pm'' = [2]"
  "doScanf time_format ''pm'' = []"
  by (simp_all add: date_format_def time_format_def scanInt_def DecodeRuneInString_def
      isSpace_def is_sign_def is_digit_def decimal_def)

lemma is_number_examples:
  "is_number ''2022''" "is_number ''01''" "is_number ''03''" "is_number ''20''"
  "decimal ''01'' = 1" "decimal ''20'' = 20"
  by (simp_all add: is_number_def is_digit_def decimal_def)

theorem odd_day_points_iff_witness:
  "odd_day_points (zero_Receipt\<lparr>PurchaseDate := ''2022-01-01''\<rparr>) 0 = 6
   \<and> odd_day_points (zero_Receipt\<lparr>PurchaseDate := ''2022-03-20''\<rparr>) 0 = 0
   \<and> length (doScanf date_format (PurchaseDate (zero_Receipt\<lparr>PurchaseDate := ''2022-01''\<rparr>))) < 3
   \<and> odd_day_points (zero_Receipt\<lparr>PurchaseDate := ''2022-01''\<rparr>) 0 = 0"
  using odd_day_points_iff [of "zero_Receipt\<lparr>PurchaseDate := ''2022-01-01''\<rparr>" 0 "''2022''" "''01''" "''01''"]
    odd_day_points_iff [of "zero_Receipt\<lparr>PurchaseDate := ''2022-03-20''\<rparr>" 0 "''2022''" "''03''" "''20''"]
    odd_day_points_iff [of "zero_Receipt\<lparr>PurchaseDate := ''2022-01''\<rparr>" 0 "''2022''" "''01''" "''01''"]
  by (simp add: is_number_examples scan_examples)

text \<open>
  C8. Block 7 adds 10 exactly when the hour the scanner stored is in \<open>[14, 16)\<close>; when
  the scanner stored nothing the hour is 0 and nothing is added; and for a time that starts
  with a number and a colon the hour is that number.
\<close>

theorem afternoon_points_iff:
  "afternoon_points r p =
     (if 14 \<le> sint (parsed_hour r) \<and> sint (parsed_hour r) < 16 then p + 10 else p)
   \<and> (doScanf time_format (PurchaseTime r) = [] \<longrightarrow>
        parsed_hour r = 0 \<and> afternoon_points r p = p)
   \<and> (is_number h \<and> PurchaseTime r = h @ CHR '':'' # rest \<longrightarrow>
        sint (parsed_hour r) = decimal h
        \<and> afternoon_points r p = (if 14 \<le> decimal h \<and> decimal h < 16 then p + 10 else p))"
proof (intro conjI impI)
  show g: "afternoon_points r p =
     (if 14 \<le> sint (parsed_hour r) \<and> sint (parsed_hour r) < 16 then p + 10 else p)"
    by (simp add: afternoon_points_def Let_def)
  {
    assume "doScanf time_format (PurchaseTime r) = []"
    then show "parsed_hour r = 0" by (simp add: parsed_hour_def operand_def)
    then show "afternoon_points r p = p" by (simp add: g)
  }
  {
    assume a: "is_number h \<and> PurchaseTime r = h @ CHR '':'' # rest"
    have nd: "\<not> is_digit CHR '':''" by (simp add: is_digit_def)
    have "parsed_hour r = word_of_int (decimal h)"
      using a doScanf_time_hour [of h "CHR '':'' # rest"] not_digit_start [OF nd]
      by (simp add: parsed_hour_def)
    then show s: "sint (parsed_hour r) = decimal h"
      using a by (simp add: sint_number)
    show "afternoon_points r p = (if 14 \<le> decimal h \<and> decimal h < 16 then p + 10 else p)"
      by (simp add: g s)
  }
qed

lemma is_number_hours:
  "is_number ''14''" "is_number ''16''" "is_number ''13''" "is_number ''15''"
  "decimal ''14'' = 14" "decimal ''16'' = 16" "decimal ''13'' = 13" "decimal ''15'' = 15"
  by (simp_all add: is_number_def is_digit_def decimal_def)

theorem afternoon_points_iff_witness:
  "afternoon_points (zero_Receipt\<lparr>PurchaseTime := ''14:33''\<rparr>) 0 = 10
   \<and> afternoon_points (zero_Receipt\<lparr>PurchaseTime := ''15:59''\<rparr>) 0 = 10
   \<and> afternoon_points (zero_Receipt\<lparr>PurchaseTime := ''16:00''\<rparr>) 0 = 0
   \<and> afternoon_points (zero_Receipt\<lparr>PurchaseTime := ''13:59''\<rparr>) 0 = 0
   \<and> doScanf time_format (PurchaseTime (zero_Receipt\<lparr>PurchaseTime := ''pm''\<rparr>)) = []
   \<and> afternoon_points (zero_Receipt\<lparr>PurchaseTime := ''pm''\<rparr>) 0 = 0"
  using afternoon_points_iff [of "zero_Receipt\<lparr>PurchaseTime := ''14:33''\<rparr>" 0 "''14''" "''33''"]
    afternoon_points_iff [of "zero_Receipt\<lparr>PurchaseTime := ''15:59''\<rparr>" 0 "''15''" "''59''"]
    afternoon_points_iff [of "zero_Receipt\<lparr>PurchaseTime := ''16:00''\<rparr>" 0 "''16''" "''00''"]
    afternoon_points_iff [of "zero_Receipt\<lparr>PurchaseTime := ''13:59''\<rparr>" 0 "''13''" "''59''"]
    afternoon_points_iff [of "zero_Receipt\<lparr>PurchaseTime := ''pm''\<rparr>" 0 "''13''" "''59''"]
  by (simp add: is_number_hours scan_examples)

section \<open>The handlers: submit and fetch\<close>

lemma Split_no_sep: "sep \<notin> set s \<Longrightarrow> Split s sep = [s]"
  by (induction s) auto

lemma Split_append: "sep \<notin> set a \<Longrightarrow> Split (a @ sep # b) sep = a # Split b sep"
  by (induction a) auto

lemma TrimPrefix_append: "TrimPrefix (p @ s) p = s"
  by (simp add: TrimPrefix_def)

lemma pathParts_of_id:
  assumes "CHR ''/'' \<notin> set ident"
  shows "Split (TrimPrefix (''/receipts/'' @ ident @ ''/points'') ''/receipts/'') CHR ''/''
           = [ident, ''points'']"
proof -
  have "Split (ident @ CHR ''/'' # ''points'') CHR ''/'' = ident # Split ''points'' CHR ''/''"
    by (rule Split_append [OF assms])
  moreover have "Split ''points'' CHR ''/'' = [''points'']"
    by (rule Split_no_sep) simp
  ultimately show ?thesis
    using TrimPrefix_append [of "''/receipts/''" "ident @ ''/points''"] by simp
qed

lemma processReceiptHandler_frame:
  "ident \<noteq> uuid \<Longrightarrow> snd (processReceiptHandler pf decode uuid r receipts) ident = receipts ident"
  by (simp add: processReceiptHandler_def split: option.splits)

lemma receipts_after_frame:
  "ident \<notin> fst ` set calls \<Longrightarrow> receipts_after pf decode calls receipts ident = receipts ident"
proof (induction calls arbitrary: receipts)
  case Nil
  show ?case by simp
next
  case (Cons c calls)
  obtain uuid r where c: "c = (uuid, r)" by (cases c)
  from Cons.prems have "ident \<noteq> uuid" and "ident \<notin> fst ` set calls"
    by (auto simp: c)
  then show ?case
    by (simp add: c Cons.IH processReceiptHandler_frame)
qed

lemma getPointsHandler_parts:
  assumes "Method r = ''GET''"
    and "Split (TrimPrefix (Path r) ''/receipts/'') CHR ''/'' = [ident, ''points'']"
  shows "getPointsHandler r receipts =
     (case receipts ident of None \<Rightarrow> http_Error ''Receipt not found'' 404
      | Some points \<Rightarrow> \<lparr>Status = 200, Payload = PointsResponse points\<rparr>)"
  using assms by (simp add: getPointsHandler_def)

text \<open>
  C5. For an identifier that was never generated for a submission (so the map, which
  starts empty, has no entry for it: the lookup's \<open>found\<close> is false), a GET of
  \<open>/receipts/{id}/points\<close> answers 404 "Receipt not found"; so does every GET whose path
  splits into an identifier without an entry and \<open>points\<close>. A GET whose path, after
  \<open>/receipts/\<close>, is not exactly two segments with the second equal to \<open>points\<close>
  answers 404 "Invalid endpoint".
\<close>

theorem getPointsHandler_not_found:
  "(Method r = ''GET'' \<and> Path r = ''/receipts/'' @ ident @ ''/points'' \<and> CHR ''/'' \<notin> set ident
      \<and> ident \<notin> fst ` set calls \<longrightarrow>
      receipts_after pf decode calls Map.empty ident = None
      \<and> getPointsHandler r (receipts_after pf decode calls Map.empty) =
          http_Error ''Receipt not found'' 404)
   \<and> (Method r = ''GET''
      \<and> Split (TrimPrefix (Path r) ''/receipts/'') CHR ''/'' = [ident, ''points'']
      \<and> receipts ident = None \<longrightarrow>
      getPointsHandler r receipts = http_Error ''Receipt not found'' 404)
   \<and> (Method r = ''GET''
      \<and> \<not> (length (Split (TrimPrefix (Path r) ''/receipts/'') CHR ''/'') = 2
            \<and> Split (TrimPrefix (Path r) ''/receipts/'') CHR ''/'' ! 1 = ''points'') \<longrightarrow>
      getPointsHandler r receipts = http_Error ''Invalid endpoint'' 404)"
proof (intro conjI impI)
  assume a: "Method r = ''GET'' \<and> Path r = ''/receipts/'' @ ident @ ''/points''
      \<and> CHR ''/'' \<notin> set ident \<and> ident \<notin> fst ` set calls"
  then show n: "receipts_after pf decode calls Map.empty ident = None"
    by (simp add: receipts_after_frame)
  from a have "Split (TrimPrefix (Path r) ''/receipts/'') CHR ''/'' = [ident, ''points'']"
    using pathParts_of_id [of ident] by simp
  with a show "getPointsHandler r (receipts_after pf decode calls Map.empty) =
      http_Error ''Receipt not found'' 404"
    by (simp add: getPointsHandler_parts n)
next
  assume "Method r = ''GET''
      \<and> Split (TrimPrefix (Path r) ''/receipts/'') CHR ''/'' = [ident, ''points'']
      \<and> receipts ident = None"
  then show "getPointsHandler r receipts = http_Error ''Receipt not found'' 404"
    by (simp add: getPointsHandler_parts)
next
  assume "Method r = ''GET''
      \<and> \<not> (length (Split (TrimPrefix (Path r) ''/receipts/'') CHR ''/'') = 2
            \<and> Split (TrimPrefix (Path r) ''/receipts/'') CHR ''/'' ! 1 = ''points'')"
  then show "getPointsHandler r receipts = http_Error ''Invalid endpoint'' 404"
    by (auto simp: getPointsHandler_def Let_def)
qed

lemma path_examples:
  "Split (TrimPrefix ''/receipts/7fb1377b-b223-49d9-a31a-5a02701dd310'' ''/receipts/'') CHR ''/''
     = [''7fb1377b-b223-49d9-a31a-5a02701dd310'']"
  "Split (TrimPrefix ''/receipts/abc/points/'' ''/receipts/'') CHR ''/'' = [''abc'', ''points'', []]"
  "Split (TrimPrefix ''/receipts/abc/score'' ''/receipts/'') CHR ''/'' = [''abc'', ''score'']"
  "Split (TrimPrefix ''/receipts//points'' ''/receipts/'') CHR ''/'' = [[], ''points'']"
  by (simp_all add: TrimPrefix_def)

theorem getPointsHandler_not_found_witness:
  "getPointsHandler
      \<lparr>Method = ''GET'', Path = ''/receipts/'' @ ''0000'' @ ''/points'', Body = []\<rparr>
      (receipts_after amd64 (\<lambda>b. Some zero_Receipt)
         [(''7fb1377b'', \<lparr>Method = ''POST'', Path = ''/receipts/process'', Body = ''{}''\<rparr>)]
         Map.empty)
     = http_Error ''Receipt not found'' 404
   \<and> getPointsHandler \<lparr>Method = ''GET'', Path = ''/receipts//points'', Body = []\<rparr> Map.empty
     = http_Error ''Receipt not found'' 404
   \<and> getPointsHandler
      \<lparr>Method = ''GET'', Path = ''/receipts/7fb1377b-b223-49d9-a31a-5a02701dd310'', Body = []\<rparr>
      [''7fb1377b-b223-49d9-a31a-5a02701dd310'' \<mapsto> 75]
     = http_Error ''Invalid endpoint'' 404
   \<and> getPointsHandler \<lparr>Method = ''GET'', Path = ''/receipts/abc/points/'', Body = []\<rparr>
      [''abc'' \<mapsto> 75]
     = http_Error ''Invalid endpoint'' 404
   \<and> getPointsHandler \<lparr>Method = ''GET'', Path = ''/receipts/abc/score'', Body = []\<rparr>
      [''abc'' \<mapsto> 75]
     = http_Error ''Invalid endpoint'' 404"
  using
    getPointsHandler_not_found [of
      "\<lparr>Method = ''GET'', Path = ''/receipts/'' @ ''0000'' @ ''/points'', Body = []\<rparr>" "''0000''"
      "[(''7fb1377b'', \<lparr>Method = ''POST'', Path = ''/receipts/process'', Body = ''{}''\<rparr>)]"
      amd64 "\<lambda>b. Some zero_Receipt" Map.empty]
    getPointsHandler_not_found [of
      "\<lparr>Method = ''GET'', Path = ''/receipts//points'', Body = []\<rparr>" "[]" "[]"
      amd64 "\<lambda>b. Some zero_Receipt" Map.empty]
    getPointsHandler_not_found [of
      "\<lparr>Method = ''GET'', Path = ''/receipts/7fb1377b-b223-49d9-a31a-5a02701dd310'', Body = []\<rparr>"
      "[]" "[]" amd64 "\<lambda>b. Some zero_Receipt" "[''7fb1377b-b223-49d9-a31a-5a02701dd310'' \<mapsto> 75]"]
    getPointsHandler_not_found [of
      "\<lparr>Method = ''GET'', Path = ''/receipts/abc/points/'', Body = []\<rparr>"
      "[]" "[]" amd64 "\<lambda>b. Some zero_Receipt" "[''abc'' \<mapsto> 75]"]
    getPointsHandler_not_found [of
      "\<lparr>Method = ''GET'', Path = ''/receipts/abc/score'', Body = []\<rparr>"
      "[]" "[]" amd64 "\<lambda>b. Some zero_Receipt" "[''abc'' \<mapsto> 75]"]
  by (simp add: path_examples)

text \<open>
  C4. A POST whose body decodes to a receipt answers 200 with the generated identifier and
  stores \<open>calculatePoints\<close> of the receipt under it; a GET of
  \<open>/receipts/{id}/points\<close> with that identifier then answers 200 with exactly that
  score, at once and after any further submissions with other identifiers. The identifier
  holds no slash (\<open>uuid.New().String()\<close> is hexadecimal digits and dashes).
\<close>

theorem submit_then_fetch:
  "Method r = ''POST'' \<and> decode (Body r) = Some receipt \<and> CHR ''/'' \<notin> set uuid
     \<and> uuid \<notin> fst ` set calls \<longrightarrow>
   fst (processReceiptHandler pf decode uuid r receipts)
     = \<lparr>Status = 200, Payload = ProcessResponse uuid\<rparr>
   \<and> snd (processReceiptHandler pf decode uuid r receipts) uuid
     = Some (calculatePoints pf receipt)
   \<and> getPointsHandler \<lparr>Method = ''GET'', Path = ''/receipts/'' @ uuid @ ''/points'', Body = b\<rparr>
        (snd (processReceiptHandler pf decode uuid r receipts))
     = \<lparr>Status = 200, Payload = PointsResponse (calculatePoints pf receipt)\<rparr>
   \<and> getPointsHandler \<lparr>Method = ''GET'', Path = ''/receipts/'' @ uuid @ ''/points'', Body = b\<rparr>
        (receipts_after pf decode calls (snd (processReceiptHandler pf decode uuid r receipts)))
     = \<lparr>Status = 200, Payload = PointsResponse (calculatePoints pf receipt)\<rparr>"
proof (intro impI)
  assume a: "Method r = ''POST'' \<and> decode (Body r) = Some receipt \<and> CHR ''/'' \<notin> set uuid
     \<and> uuid \<notin> fst ` set calls"
  let ?s = "snd (processReceiptHandler pf decode uuid r receipts)"
  let ?q = "\<lparr>Method = ''GET'', Path = ''/receipts/'' @ uuid @ ''/points'', Body = b\<rparr>"
  have 1: "fst (processReceiptHandler pf decode uuid r receipts)
     = \<lparr>Status = 200, Payload = ProcessResponse uuid\<rparr>"
    using a by (simp add: processReceiptHandler_def)
  have 2: "?s uuid = Some (calculatePoints pf receipt)"
    using a by (simp add: processReceiptHandler_def)
  have parts: "Split (TrimPrefix (Path ?q) ''/receipts/'') CHR ''/'' = [uuid, ''points'']"
    using a pathParts_of_id [of uuid] by simp
  have 3: "getPointsHandler ?q ?s = \<lparr>Status = 200, Payload = PointsResponse (calculatePoints pf receipt)\<rparr>"
    using getPointsHandler_parts [OF _ parts, of ?s] by (simp add: 2)
  have "receipts_after pf decode calls ?s uuid = Some (calculatePoints pf receipt)"
    using a by (simp add: receipts_after_frame 2)
  then have 4: "getPointsHandler ?q (receipts_after pf decode calls ?s)
      = \<lparr>Status = 200, Payload = PointsResponse (calculatePoints pf receipt)\<rparr>"
    using getPointsHandler_parts [OF _ parts, of "receipts_after pf decode calls ?s"] by simp
  show "fst (processReceiptHandler pf decode uuid r receipts)
     = \<lparr>Status = 200, Payload = ProcessResponse uuid\<rparr>
   \<and> ?s uuid = Some (calculatePoints pf receipt)
   \<and> getPointsHandler ?q ?s = \<lparr>Status = 200, Payload = PointsResponse (calculatePoints pf receipt)\<rparr>
   \<and> getPointsHandler ?q (receipts_after pf decode calls ?s)
     = \<lparr>Status = 200, Payload = PointsResponse (calculatePoints pf receipt)\<rparr>"
    using 1 2 3 4 by simp
qed

theorem submit_then_fetch_witness:
  "fst (processReceiptHandler amd64 (\<lambda>b. Some zero_Receipt) ''7fb1377b''
        \<lparr>Method = ''POST'', Path = ''/receipts/process'', Body = ''{}''\<rparr> Map.empty)
     = \<lparr>Status = 200, Payload = ProcessResponse ''7fb1377b''\<rparr>
   \<and> getPointsHandler \<lparr>Method = ''GET'', Path = ''/receipts/7fb1377b/points'', Body = []\<rparr>
        (receipts_after amd64 (\<lambda>b. Some zero_Receipt)
           [(''0000'', \<lparr>Method = ''POST'', Path = ''/receipts/process'', Body = ''{}''\<rparr>)]
           (snd (processReceiptHandler amd64 (\<lambda>b. Some zero_Receipt) ''7fb1377b''
              \<lparr>Method = ''POST'', Path = ''/receipts/process'', Body = ''{}''\<rparr> Map.empty)))
     = \<lparr>Status = 200, Payload = PointsResponse 75\<rparr>"
  using submit_then_fetch [of
      "\<lparr>Method = ''POST'', Path = ''/receipts/process'', Body = ''{}''\<rparr>"
      "\<lambda>b. Some zero_Receipt" zero_Receipt "''7fb1377b''"
      "[(''0000'', \<lparr>Method = ''POST'', Path = ''/receipts/process'', Body = ''{}''\<rparr>)]"
      amd64 Map.empty "[]"]
  by (simp add: calculatePoints_zero)

section \<open>Rounding to float64\<close>

lemma bitlen_bounds:
  "0 < k \<Longrightarrow> 0 < bitlen k \<and> 2 ^ nat (bitlen k - 1) \<le> k \<and> k < 2 ^ nat (bitlen k)"
proof (induction k rule: bitlen.induct)
  case (1 k)
  show ?case
  proof (cases "k = 1")
    case True
    have "bitlen (1::int) = 1"
      by (simp add: bitlen.simps [of 1] bitlen.simps [of 0])
    then show ?thesis using True by simp
  next
    case False
    with "1.prems" have pos: "0 < k div 2" by simp
    from "1.IH" [OF _ pos] "1.prems"
    have ih: "0 < bitlen (k div 2)" "2 ^ nat (bitlen (k div 2) - 1) \<le> k div 2"
      "k div 2 < 2 ^ nat (bitlen (k div 2))"
      by simp_all
    have b: "bitlen k = 1 + bitlen (k div 2)"
      using "1.prems" by (simp add: bitlen.simps [of k])
    have n: "nat (bitlen k - 1) = Suc (nat (bitlen (k div 2) - 1))"
      "nat (bitlen k) = Suc (nat (bitlen (k div 2)))"
      using ih(1) b by simp_all
    have "(2::int) ^ nat (bitlen k - 1) = 2 * 2 ^ nat (bitlen (k div 2) - 1)"
      by (simp only: n power_Suc)
    then have lo: "2 ^ nat (bitlen k - 1) \<le> k"
      using ih(2) by linarith
    have "(2::int) ^ nat (bitlen k) = 2 * 2 ^ nat (bitlen (k div 2))"
      by (simp only: n power_Suc)
    then have hi: "k < 2 ^ nat (bitlen k)"
      using ih(3) by linarith
    have "0 < bitlen k" using b ih(1) by linarith
    then show ?thesis using lo hi by blast
  qed
qed

lemma powi_two_pos: "0 < (2::rat) powi n"
  by simp

lemma powi_two_nat: "0 \<le> n \<Longrightarrow> (2::rat) powi n = 2 ^ nat n"
  by (simp add: power_int_def)

text \<open>The exponent is unique.\<close>

lemma exponent_unique:
  fixes x :: rat
  assumes "2 powi e \<le> x" "x < 2 powi (e + 1)" "2 powi e' \<le> x" "x < 2 powi (e' + 1)"
  shows "e = e'"
proof (rule ccontr)
  assume "e \<noteq> e'"
  then consider "e + 1 \<le> e'" | "e' + 1 \<le> e" by linarith
  then show False
  proof cases
    case 1
    then have "(2::rat) powi (e + 1) \<le> 2 powi e'"
      by (intro power_int_increasing) simp_all
    with assms show False by linarith
  next
    case 2
    then have "(2::rat) powi (e' + 1) \<le> 2 powi e"
      by (intro power_int_increasing) simp_all
    with assms show False by linarith
  qed
qed

lemma ilog2_bounds:
  assumes "q \<noteq> 0"
  shows "2 powi ilog2 q \<le> \<bar>q\<bar> \<and> \<bar>q\<bar> < 2 powi (ilog2 q + 1)"
proof -
  obtain a b where ab: "quotient_of \<bar>q\<bar> = (a, b)" by (cases "quotient_of \<bar>q\<bar>")
  have b: "0 < b" using ab by (rule quotient_of_denom_pos)
  have q: "\<bar>q\<bar> = of_int a / of_int b" using ab by (rule quotient_of_div)
  have a: "0 < a"
  proof -
    have "0 < \<bar>q\<bar>" using assms by simp
    then have "0 < (of_int a :: rat) / of_int b" by (simp add: q)
    then show ?thesis using b by (simp add: zero_less_divide_iff)
  qed
  define la where "la = bitlen a"
  define lb where "lb = bitlen b"
  define d where "d = la - lb"
  have A: "0 < la" "2 ^ nat (la - 1) \<le> a" "a < 2 ^ nat la"
    using bitlen_bounds [OF a] by (simp_all add: la_def)
  have B: "0 < lb" "2 ^ nat (lb - 1) \<le> b" "b < 2 ^ nat lb"
    using bitlen_bounds [OF b] by (simp_all add: lb_def)
  have Ar: "(2::rat) powi (la - 1) \<le> of_int a" "(of_int a :: rat) < 2 powi la"
  proof -
    have "(of_int (2 ^ nat (la - 1)) :: rat) \<le> of_int a"
      using A(2) by (simp only: of_int_le_iff)
    then show "(2::rat) powi (la - 1) \<le> of_int a"
      using A(1) by (simp add: powi_two_nat)
    have "(of_int a :: rat) < of_int (2 ^ nat la)"
      using A(3) by (simp only: of_int_less_iff)
    then show "(of_int a :: rat) < 2 powi la"
      using A(1) by (simp add: powi_two_nat)
  qed
  have Br: "(2::rat) powi (lb - 1) \<le> of_int b" "(of_int b :: rat) < 2 powi lb"
  proof -
    have "(of_int (2 ^ nat (lb - 1)) :: rat) \<le> of_int b"
      using B(2) by (simp only: of_int_le_iff)
    then show "(2::rat) powi (lb - 1) \<le> of_int b"
      using B(1) by (simp add: powi_two_nat)
    have "(of_int b :: rat) < of_int (2 ^ nat lb)"
      using B(3) by (simp only: of_int_less_iff)
    then show "(of_int b :: rat) < 2 powi lb"
      using B(1) by (simp add: powi_two_nat)
  qed
  have bpos: "(0::rat) < of_int b" using b by simp
  have upper: "\<bar>q\<bar> < 2 powi (d + 1)"
  proof -
    have "(of_int a :: rat) < 2 powi la" by (rule Ar(2))
    also have "\<dots> = 2 powi (d + 1) * 2 powi (lb - 1)"
      by (simp add: d_def power_int_add [symmetric])
    also have "\<dots> \<le> 2 powi (d + 1) * of_int b"
      using Br(1) by (intro mult_left_mono) simp_all
    finally show ?thesis
      using bpos by (simp add: q pos_divide_less_eq)
  qed
  have lower: "2 powi (d - 1) < \<bar>q\<bar>"
  proof -
    have "(2::rat) powi (d - 1) * of_int b < 2 powi (d - 1) * 2 powi lb"
      using Br(2) by (intro mult_strict_left_mono) simp_all
    also have "\<dots> = 2 powi (la - 1)"
      by (simp add: d_def power_int_add [symmetric])
    also have "\<dots> \<le> of_int a" by (rule Ar(1))
    finally show ?thesis
      using bpos by (simp add: q pos_less_divide_eq)
  qed
  have il: "ilog2 q = (if 2 powi d \<le> \<bar>q\<bar> then d else d - 1)"
    by (simp add: ilog2_def ab d_def la_def lb_def Let_def)
  show ?thesis
  proof (cases "2 powi d \<le> \<bar>q\<bar>")
    case True
    then show ?thesis using upper by (simp add: il)
  next
    case False
    then show ?thesis using lower by (simp add: il)
  qed
qed

lemma ilog2_eqI:
  assumes "2 powi e \<le> \<bar>q\<bar>" "\<bar>q\<bar> < 2 powi (e + 1)"
  shows "ilog2 q = e"
proof -
  have "q \<noteq> 0"
  proof
    assume "q = 0"
    then have "(2::rat) powi e \<le> 0" using assms(1) by simp
    then show False using powi_two_pos [of e] by linarith
  qed
  from ilog2_bounds [OF this] assms show ?thesis
    by (intro exponent_unique [of "ilog2 q" "\<bar>q\<bar>" e]) simp_all
qed

lemma round_half_even_of_int: "round_half_even (of_int z) = z"
  by (simp add: round_half_even_def)

text \<open>What \<open>round64 q = Finite q\<close> says: \<open>q\<close> is a whole number of units in the last place.\<close>

lemma round64_FiniteD:
  assumes "round64 q = Finite q" "q \<noteq> 0"
  shows "q = of_int (round_half_even (q / 2 powi (max (ilog2 q) (- 1022) - 52)))
              * 2 powi (max (ilog2 q) (- 1022) - 52)"
  using assms by (simp add: round64_def Let_def split: if_splits)

lemma round64_exact:
  assumes e: "2 powi e \<le> \<bar>q\<bar>" "\<bar>q\<bar> < 2 powi (e + 1)"
    and m: "q = of_int m * 2 powi (max e (- 1022) - 52)"
    and fin: "\<bar>q\<bar> < 2 ^ 1024"
  shows "round64 q = Finite q"
proof -
  have i: "ilog2 q = e" using e by (rule ilog2_eqI)
  have q0: "q \<noteq> 0"
  proof
    assume "q = 0"
    then have "(2::rat) powi e \<le> 0" using e(1) by simp
    then show False using powi_two_pos [of e] by linarith
  qed
  define u :: rat where "u = 2 powi (max e (- 1022) - 52)"
  have u: "0 < u" by (simp add: u_def)
  have "q / u = of_int m" using m u by (simp add: u_def)
  then have "of_int (round_half_even (q / u)) * u = q"
    using m by (simp add: round_half_even_of_int u_def)
  then show ?thesis
    using q0 fin by (simp add: round64_def i Let_def u_def [symmetric])
qed

lemma round64_times_4:
  assumes r: "round64 q = Finite q" and fin: "\<bar>q\<bar> * 4 < 2 ^ 1024"
  shows "round64 (q * 4) = Finite (q * 4)"
proof (cases "q = 0")
  case True
  then show ?thesis by (simp add: round64_def)
next
  case False
  define e where "e = ilog2 q"
  define E where "E = max e (- 1022)"
  define E' where "E' = max (e + 2) (- 1022)"
  define m where "m = round_half_even (q / 2 powi (E - 52))"
  have b: "2 powi e \<le> \<bar>q\<bar>" "\<bar>q\<bar> < 2 powi (e + 1)"
    using ilog2_bounds [OF False] by (simp_all add: e_def)
  have q: "q = of_int m * 2 powi (E - 52)"
    using round64_FiniteD [OF r False] by (simp add: m_def E_def e_def)
  define k where "k = nat (E + 2 - E')"
  have k: "E + 2 - E' = int k" by (simp add: k_def E_def E'_def)
  have "(2::rat) powi ((E - 52) + 2) = 2 powi (E - 52) * 2 powi 2"
    by (rule power_int_add) simp
  then have "(2::rat) powi (E - 52) * 4 = 2 powi ((E - 52) + 2)"
    by simp
  also have "\<dots> = 2 powi (int k + (E' - 52))"
    by (rule arg_cong [where f = "\<lambda>n. 2 powi n"]) (use k in linarith)
  also have "\<dots> = 2 ^ k * 2 powi (E' - 52)"
    by (simp add: power_int_add)
  finally have u: "(2::rat) powi (E - 52) * 4 = 2 ^ k * 2 powi (E' - 52)" .
  have q4: "q * 4 = of_int (m * 2 ^ k) * 2 powi (E' - 52)"
  proof -
    have "q * 4 = of_int m * (2 powi (E - 52) * 4)"
      using q by simp
    then show ?thesis by (simp add: u)
  qed
  have b4: "2 powi (e + 2) \<le> \<bar>q * 4\<bar>" "\<bar>q * 4\<bar> < 2 powi (e + 2 + 1)"
  proof -
    have "(2::rat) powi (e + 2) = 2 powi e * 4"
      by (simp add: power_int_add)
    then show "2 powi (e + 2) \<le> \<bar>q * 4\<bar>"
      using b(1) by (simp add: abs_mult)
    have "(2::rat) powi (e + 2 + 1) = 2 powi (e + 1) * 4"
      by (simp add: power_int_add)
    then show "\<bar>q * 4\<bar> < 2 powi (e + 2 + 1)"
      using b(2) by (simp add: abs_mult)
  qed
  show ?thesis
    using b4
  proof (rule round64_exact)
    show "q * 4 = of_int (m * 2 ^ k) * 2 powi (max (e + 2) (- 1022) - 52)"
      using q4 by (simp add: E'_def)
    show "\<bar>q * 4\<bar> < 2 ^ 1024"
      using fin by (simp add: abs_mult)
  qed
qed

lemma int_of_float64_in_range:
  "- (2 ^ 63) \<le> trunc v \<Longrightarrow> trunc v < 2 ^ 63 \<Longrightarrow> int_of_float64 pf (Finite v) = word_of_int (trunc v)"
  by (simp add: int_of_float64_def)

lemma trunc_of_int: "trunc (of_int n) = n"
  by (simp add: trunc_def)

lemma abs_less_trunc: "\<bar>x\<bar> < of_int \<bar>trunc x\<bar> + 1"
proof (cases "0 \<le> x")
  case True
  then have "0 \<le> \<lfloor>x\<rfloor>" by simp
  moreover have "x < of_int \<lfloor>x\<rfloor> + 1" by linarith
  ultimately show ?thesis using True by (simp add: trunc_def)
next
  case False
  then have "\<lceil>x\<rceil> \<le> 0" by (simp add: ceiling_le_iff)
  moreover have "of_int \<lceil>x\<rceil> < x + 1" by linarith
  ultimately show ?thesis using False by (simp add: trunc_def)
qed

lemma abs_le_trunc:
  assumes "- (2 ^ 63) \<le> trunc x" "trunc x < 2 ^ 63"
  shows "\<bar>x\<bar> < 2 ^ 1024"
proof -
  have "\<bar>trunc x\<bar> \<le> 2 ^ 63" using assms by linarith
  then have "(of_int \<bar>trunc x\<bar> :: rat) \<le> of_int (2 ^ 63)"
    by (simp only: of_int_le_iff)
  then have "\<bar>x\<bar> < of_int (2 ^ 63) + 1"
    using abs_less_trunc [of x] by linarith
  also have "\<dots> < 2 ^ 1024" by simp
  finally show ?thesis .
qed

lemma quarter_points_trunc:
  assumes t: "Total r = Finite q" and f: "is_float64 (Total r)"
    and lo: "- (2 ^ 63) \<le> trunc (q * 4)" and hi: "trunc (q * 4) < 2 ^ 63"
  shows "quarter_points pf r p = (if 4 dvd trunc (q * 4) then p + 25 else p)"
proof -
  have r: "round64 q = Finite q" using t f by (simp add: is_float64_def)
  have "\<bar>q * 4\<bar> < 2 ^ 1024" using lo hi by (rule abs_le_trunc)
  then have "round64 (q * 4) = Finite (q * 4)"
    by (intro round64_times_4 [OF r]) (simp add: abs_mult)
  then have "int_of_float64 pf (f64_mul (Total r) (Finite 4)) = word_of_int (trunc (q * 4))"
    using lo hi by (simp add: t int_of_float64_in_range)
  moreover have "sint (word_of_int (trunc (q * 4)) :: go_int) = trunc (q * 4)"
    using lo hi by (rule sint_word_of_int_64)
  ultimately show ?thesis
    by (simp add: quarter_points_def go_rem_4)
qed

lemma round_dollar_points_whole:
  assumes t: "Total r = Finite q" and f: "is_float64 (Total r)"
    and lo: "- (2 ^ 63) \<le> trunc q" and hi: "trunc q < 2 ^ 63"
    and w: "q = of_int (trunc q)"
  shows "round_dollar_points pf r p = p + 50"
proof -
  have r: "round64 q = Finite q" using t f by (simp add: is_float64_def)
  have "int_of_float64 pf (Total r) = word_of_int (trunc q)"
    using lo hi by (simp add: t int_of_float64_in_range)
  moreover have "sint (word_of_int (trunc q) :: go_int) = trunc q"
    using lo hi by (rule sint_word_of_int_64)
  ultimately have "float64_of_int (int_of_float64 pf (Total r)) = round64 (of_int (trunc q))"
    by (simp add: float64_of_int_def)
  also have "\<dots> = Finite q" using w r by simp
  finally show ?thesis
    by (simp add: round_dollar_points_def t)
qed

text \<open>
  C2 (as amended). For every receipt whose total is a \<open>float64\<close> value, non-negative,
  below \<open>2^61\<close> and equal to its truncation to whole currency units, block 2 adds 50
  and block 3 adds 25 on every platform: together 75, and \<open>calculatePoints\<close> is the
  other five blocks run from the retailer's points plus 75.
\<close>

theorem whole_total_gets_75:
  "Total r = Finite q \<and> is_float64 (Total r) \<and> 0 \<le> q \<and> q < 2 ^ 61 \<and> q = of_int (trunc q) \<longrightarrow>
     round_dollar_points pf r p = p + 50
     \<and> quarter_points pf r p = p + 25
     \<and> quarter_points pf r (round_dollar_points pf r p) = p + 75
     \<and> calculatePoints pf r =
         afternoon_points r (odd_day_points r (description_points pf r
           (item_pair_points r (retailer_points r 0 + 75))))"
proof (intro impI)
  assume a: "Total r = Finite q \<and> is_float64 (Total r) \<and> 0 \<le> q \<and> q < 2 ^ 61
      \<and> q = of_int (trunc q)"
  define n where "n = trunc q"
  have q: "q = of_int n" using a by (simp add: n_def)
  have n: "0 \<le> n" "n < 2 ^ 61"
  proof -
    show "0 \<le> n" using a by (simp add: n_def trunc_def)
    have "(of_int n :: rat) < of_int (2 ^ 61)" using a q by simp
    then show "n < 2 ^ 61" by (simp only: of_int_less_iff)
  qed
  have q4: "trunc (q * 4) = n * 4"
  proof -
    have "q * 4 = of_int (n * 4)" by (simp add: q)
    then show ?thesis by (simp only: trunc_of_int)
  qed
  from a have t: "Total r = Finite q" and f: "is_float64 (Total r)"
    and w: "q = of_int (trunc q)" by blast+
  have lo: "- (2 ^ 63) \<le> trunc q" and hi: "trunc q < 2 ^ 63"
    using n by (simp_all add: n_def [symmetric])
  have lo4: "- (2 ^ 63) \<le> trunc (q * 4)" and hi4: "trunc (q * 4) < 2 ^ 63"
    using n by (simp_all add: q4)
  have 2: "round_dollar_points pf r p' = p' + 50" for p'
    using t f lo hi w by (rule round_dollar_points_whole)
  have 3: "quarter_points pf r p' = p' + 25" for p'
  proof -
    have "quarter_points pf r p' = (if 4 dvd trunc (q * 4) then p' + 25 else p')"
      using t f lo4 hi4 by (rule quarter_points_trunc)
    then show ?thesis by (simp add: q4)
  qed
  show "round_dollar_points pf r p = p + 50
     \<and> quarter_points pf r p = p + 25
     \<and> quarter_points pf r (round_dollar_points pf r p) = p + 75
     \<and> calculatePoints pf r =
         afternoon_points r (odd_day_points r (description_points pf r
           (item_pair_points r (retailer_points r 0 + 75))))"
    by (simp add: 2 3 calculatePoints_def add.commute)
qed

lemma representable_examples:
  "is_float64 (Finite 35)" "is_float64 (Finite (2 ^ 62))" "is_float64 (Finite (2 ^ 64))"
proof -
  show "is_float64 (Finite 35)"
    unfolding is_float64_def float64.case
    by (rule round64_exact [where e = 5 and m = "35 * 2 ^ 47"]) simp_all
  show "is_float64 (Finite (2 ^ 62))"
    unfolding is_float64_def float64.case
    by (rule round64_exact [where e = 62 and m = "2 ^ 52"]) simp_all
  show "is_float64 (Finite (2 ^ 64))"
    unfolding is_float64_def float64.case
    by (rule round64_exact [where e = 64 and m = "2 ^ 52"]) simp_all
qed

theorem whole_total_gets_75_witness:
  "is_float64 (Total (zero_Receipt\<lparr>Total := Finite 35\<rparr>))
   \<and> (35 :: rat) = of_int (trunc 35)
   \<and> round_dollar_points amd64 (zero_Receipt\<lparr>Total := Finite 35\<rparr>) 0 = 50
   \<and> quarter_points amd64 (zero_Receipt\<lparr>Total := Finite 35\<rparr>) 0 = 25
   \<and> calculatePoints amd64 (zero_Receipt\<lparr>Total := Finite 35\<rparr>) = 75"
proof -
  have "trunc 35 = 35" by (simp add: trunc_def)
  then show ?thesis
    using whole_total_gets_75 [of "zero_Receipt\<lparr>Total := Finite 35\<rparr>" 35 amd64 0]
    by (simp add: representable_examples zero_Receipt_def retailer_points_def item_pair_points_def
        description_points_def odd_day_points_def afternoon_points_def parsed_day_def
        parsed_hour_def date_format_def time_format_def operand_def scanInt_Nil go_rem_0
        len_def go_quo_def)
qed

text \<open>Two totals that are whole numbers of currency units and do not get both bonuses.\<close>

lemma huge_total_amd64:
  "round_dollar_points amd64 (zero_Receipt\<lparr>Total := Finite (2 ^ 64)\<rparr>) 0 = 0"
  by code_simp

lemma huge_total_arm64:
  "round_dollar_points arm64 (zero_Receipt\<lparr>Total := Finite (2 ^ 64)\<rparr>) 0 = 0"
  by code_simp

lemma large_total_arm64:
  "round_dollar_points arm64 (zero_Receipt\<lparr>Total := Finite (2 ^ 62)\<rparr>) 0 = 50"
  "quarter_points arm64 (zero_Receipt\<lparr>Total := Finite (2 ^ 62)\<rparr>) 0 = 0"
  by code_simp+

theorem whole_total_counterexample:
  "is_float64 (Finite (2 ^ 64)) \<and> (2 ^ 64 :: rat) = of_int (trunc (2 ^ 64))
   \<and> round_dollar_points amd64 (zero_Receipt\<lparr>Total := Finite (2 ^ 64)\<rparr>) 0 = 0
   \<and> round_dollar_points arm64 (zero_Receipt\<lparr>Total := Finite (2 ^ 64)\<rparr>) 0 = 0
   \<and> is_float64 (Finite (2 ^ 62)) \<and> (2 ^ 62 :: rat) = of_int (trunc (2 ^ 62))
   \<and> round_dollar_points arm64 (zero_Receipt\<lparr>Total := Finite (2 ^ 62)\<rparr>) 0 = 50
   \<and> quarter_points arm64 (zero_Receipt\<lparr>Total := Finite (2 ^ 62)\<rparr>) 0 = 0"
proof (intro conjI)
  show "is_float64 (Finite (2 ^ 64))" "is_float64 (Finite (2 ^ 62))"
    by (rule representable_examples)+
  show "(2 ^ 64 :: rat) = of_int (trunc (2 ^ 64))" "(2 ^ 62 :: rat) = of_int (trunc (2 ^ 62))"
    by (simp_all add: trunc_def)
  show "round_dollar_points amd64 (zero_Receipt\<lparr>Total := Finite (2 ^ 64)\<rparr>) 0 = 0"
    by (rule huge_total_amd64)
  show "round_dollar_points arm64 (zero_Receipt\<lparr>Total := Finite (2 ^ 64)\<rparr>) 0 = 0"
    by (rule huge_total_arm64)
  show "round_dollar_points arm64 (zero_Receipt\<lparr>Total := Finite (2 ^ 62)\<rparr>) 0 = 50"
    "quarter_points arm64 (zero_Receipt\<lparr>Total := Finite (2 ^ 62)\<rparr>) 0 = 0"
    by (rule large_total_arm64)+
qed

section \<open>Rule 5: descriptions\<close>










section \<open>Rule 3: the quarter test\<close>

lemma total_35_10:
  "f64_mul (round64 (351 / 10)) (Finite 4) = Finite (4939885841272013 / 35184372088832)"
  "trunc (4939885841272013 / 35184372088832) = 140"
  "\<not> multiple_of_quarter (round64 (351 / 10))"
  "round_dollar_points amd64 (zero_Receipt\<lparr>Total := round64 (351 / 10)\<rparr>) 0 = 0"
  by code_simp+

lemma total_eighth:
  "f64_mul (Finite (1 / 8)) (Finite 4) = Finite (1 / 2)"
  "trunc (1 / 2) = 0"
  "\<not> multiple_of_quarter (Finite (1 / 8))"
  by code_simp+

lemma quarter_points_35_10:
  "quarter_points pf (zero_Receipt\<lparr>Total := round64 (351 / 10)\<rparr>) p = p + 25"
proof -
  have "int_of_float64 pf (f64_mul (round64 (351 / 10)) (Finite 4)) = 140"
    by (simp only: total_35_10) (simp add: int_of_float64_in_range total_35_10)
  then show ?thesis
    by (simp add: quarter_points_def go_rem_4 del: f64_mul.simps)
qed

lemma quarter_points_eighth:
  "quarter_points pf (zero_Receipt\<lparr>Total := Finite (1 / 8)\<rparr>) p = p + 25"
proof -
  have "int_of_float64 pf (f64_mul (Finite (1 / 8)) (Finite 4)) = 0"
    by (simp only: total_eighth) (simp add: int_of_float64_in_range total_eighth)
  then show ?thesis
    by (simp add: quarter_points_def go_rem_4 del: f64_mul.simps)
qed

text \<open>
  C1. Block 3 tests the truncation of four times the total, so it also adds 25 for totals
  that are not multiples of 0.25: 35.10 (the nearest \<open>float64\<close>) and 0.125, on both
  platforms. \<open>calculatePoints\<close> of a receipt with total 35.10 and nothing else is 25.
\<close>

theorem quarter_bonus_without_multiple:
  "\<not> multiple_of_quarter (round64 (351 / 10))
   \<and> quarter_points amd64 (zero_Receipt\<lparr>Total := round64 (351 / 10)\<rparr>) 0 = 25
   \<and> quarter_points arm64 (zero_Receipt\<lparr>Total := round64 (351 / 10)\<rparr>) 0 = 25
   \<and> calculatePoints amd64 (zero_Receipt\<lparr>Total := round64 (351 / 10)\<rparr>) = 25
   \<and> \<not> multiple_of_quarter (Finite (1 / 8))
   \<and> quarter_points amd64 (zero_Receipt\<lparr>Total := Finite (1 / 8)\<rparr>) 0 = 25
   \<and> quarter_points arm64 (zero_Receipt\<lparr>Total := Finite (1 / 8)\<rparr>) 0 = 25"
proof -
  have "calculatePoints amd64 (zero_Receipt\<lparr>Total := round64 (351 / 10)\<rparr>)
      = quarter_points amd64 (zero_Receipt\<lparr>Total := round64 (351 / 10)\<rparr>)
          (round_dollar_points amd64 (zero_Receipt\<lparr>Total := round64 (351 / 10)\<rparr>) 0)"
    by (simp add: calculatePoints_def zero_Receipt_def retailer_points_def item_pair_points_def
        description_points_def odd_day_points_def afternoon_points_def parsed_day_def
        parsed_hour_def date_format_def time_format_def operand_def scanInt_Nil go_rem_0
        len_def go_quo_def)
  then have "calculatePoints amd64 (zero_Receipt\<lparr>Total := round64 (351 / 10)\<rparr>) = 25"
    by (simp only: total_35_10 quarter_points_35_10) simp
  then show ?thesis
    by (simp only: total_35_10 total_eighth quarter_points_35_10 quarter_points_eighth) simp
qed

section \<open>The score is a function of the receipt\<close>

lemma round_dollar_points_add: "round_dollar_points pf r p = p + round_dollar_points pf r 0"
  by (simp add: round_dollar_points_def)

lemma quarter_points_add: "quarter_points pf r p = p + quarter_points pf r 0"
  by (simp add: quarter_points_def)

lemma item_pair_points_add: "item_pair_points r p = p + item_pair_points r 0"
  by (simp add: item_pair_points_def)

lemma description_points_add: "description_points pf r p = p + description_points pf r 0"
  by (simp add: description_points_sum)

lemma odd_day_points_add: "odd_day_points r p = p + odd_day_points r 0"
  by (simp add: odd_day_points_def Let_def)

lemma afternoon_points_add: "afternoon_points r p = p + afternoon_points r 0"
  by (simp add: afternoon_points_def Let_def)

lemma calculatePoints_sum:
  "calculatePoints pf r =
     retailer_points r 0 + round_dollar_points pf r 0 + quarter_points pf r 0
     + item_pair_points r 0 + description_points pf r 0 + odd_day_points r 0
     + afternoon_points r 0"
proof -
  have "calculatePoints pf r =
      afternoon_points r (odd_day_points r (description_points pf r (item_pair_points r
        (quarter_points pf r (round_dollar_points pf r (retailer_points r 0))))))"
    by (simp add: calculatePoints_def)
  also have "\<dots> = odd_day_points r (description_points pf r (item_pair_points r
        (quarter_points pf r (round_dollar_points pf r (retailer_points r 0)))))
        + afternoon_points r 0"
    by (rule afternoon_points_add)
  also have "odd_day_points r (description_points pf r (item_pair_points r
        (quarter_points pf r (round_dollar_points pf r (retailer_points r 0)))))
      = description_points pf r (item_pair_points r
        (quarter_points pf r (round_dollar_points pf r (retailer_points r 0))))
        + odd_day_points r 0"
    by (rule odd_day_points_add)
  also have "description_points pf r (item_pair_points r
        (quarter_points pf r (round_dollar_points pf r (retailer_points r 0))))
      = item_pair_points r (quarter_points pf r (round_dollar_points pf r (retailer_points r 0)))
        + description_points pf r 0"
    by (rule description_points_add)
  also have "item_pair_points r (quarter_points pf r (round_dollar_points pf r (retailer_points r 0)))
      = quarter_points pf r (round_dollar_points pf r (retailer_points r 0)) + item_pair_points r 0"
    by (rule item_pair_points_add)
  also have "quarter_points pf r (round_dollar_points pf r (retailer_points r 0))
      = round_dollar_points pf r (retailer_points r 0) + quarter_points pf r 0"
    by (rule quarter_points_add)
  also have "round_dollar_points pf r (retailer_points r 0)
      = retailer_points r 0 + round_dollar_points pf r 0"
    by (rule round_dollar_points_add)
  finally show ?thesis .
qed

text \<open>
  C6. \<open>calculatePoints\<close> is a function of the receipt (and the platform) alone: its
  result is the sum of the seven blocks' contributions, each computed from the receipt.
  It reads neither the map nor the identifier: two submissions of the same receipt, into
  any two maps and under any two identifiers, both succeed with status 200 and store the
  same score.
\<close>

theorem calculatePoints_deterministic:
  "calculatePoints pf r =
     retailer_points r 0 + round_dollar_points pf r 0 + quarter_points pf r 0
     + item_pair_points r 0 + description_points pf r 0 + odd_day_points r 0
     + afternoon_points r 0
   \<and> (Method q1 = ''POST'' \<and> Method q2 = ''POST''
        \<and> decode (Body q1) = Some r \<and> decode (Body q2) = Some r \<longrightarrow>
      Status (fst (processReceiptHandler pf decode u1 q1 s1)) = 200
      \<and> Status (fst (processReceiptHandler pf decode u2 q2 s2)) = 200
      \<and> snd (processReceiptHandler pf decode u1 q1 s1) u1 = Some (calculatePoints pf r)
      \<and> snd (processReceiptHandler pf decode u2 q2 s2) u2 = Some (calculatePoints pf r))"
  by (simp add: calculatePoints_sum [symmetric] processReceiptHandler_def)

theorem calculatePoints_deterministic_witness:
  "calculatePoints amd64 zero_Receipt =
     retailer_points zero_Receipt 0 + round_dollar_points amd64 zero_Receipt 0
     + quarter_points amd64 zero_Receipt 0 + item_pair_points zero_Receipt 0
     + description_points amd64 zero_Receipt 0 + odd_day_points zero_Receipt 0
     + afternoon_points zero_Receipt 0
   \<and> snd (processReceiptHandler amd64 (\<lambda>b. Some zero_Receipt) ''7fb1377b''
        \<lparr>Method = ''POST'', Path = ''/receipts/process'', Body = ''{}''\<rparr> Map.empty) ''7fb1377b''
     = Some 75
   \<and> snd (processReceiptHandler amd64 (\<lambda>b. Some zero_Receipt) ''0000''
        \<lparr>Method = ''POST'', Path = ''/receipts/process'', Body = ''{ }''\<rparr> [''7fb1377b'' \<mapsto> 75]) ''0000''
     = Some 75"
  using calculatePoints_deterministic [of amd64 zero_Receipt
      "\<lparr>Method = ''POST'', Path = ''/receipts/process'', Body = ''{}''\<rparr>"
      "\<lparr>Method = ''POST'', Path = ''/receipts/process'', Body = ''{ }''\<rparr>"
      "\<lambda>b. Some zero_Receipt" "''7fb1377b''" Map.empty "''0000''" "[''7fb1377b'' \<mapsto> 75]"]
  by (simp add: calculatePoints_zero)

end
